theory Spec2Isabelle
  imports Complex_Main "HOL-Library.AList"
begin

section \<open>Numbers of a pandas column\<close>

text \<open>
  A cell of a numeric pandas column is a double: a finite number, one of the two
  infinities, or NaN, which pandas also uses as its marker for a missing value. The model
  keeps the special values and computes the finite ones exactly, as rationals: rounding is
  outside the model, and so is the sign of a zero (a finite number divided by zero becomes
  the infinity of the sign of the numerator).
\<close>

datatype fnum = NaN | PInf | NInf | Fin rat

fun fneg :: "fnum \<Rightarrow> fnum" where
  "fneg NaN = NaN"
| "fneg PInf = NInf"
| "fneg NInf = PInf"
| "fneg (Fin a) = Fin (- a)"

fun fadd :: "fnum \<Rightarrow> fnum \<Rightarrow> fnum" where
  "fadd NaN _ = NaN"
| "fadd _ NaN = NaN"
| "fadd PInf NInf = NaN"
| "fadd NInf PInf = NaN"
| "fadd PInf _ = PInf"
| "fadd _ PInf = PInf"
| "fadd NInf _ = NInf"
| "fadd _ NInf = NInf"
| "fadd (Fin a) (Fin b) = Fin (a + b)"

definition fsub :: "fnum \<Rightarrow> fnum \<Rightarrow> fnum" where
  "fsub x y = fadd x (fneg y)"

fun fsign :: "fnum \<Rightarrow> int" where
  "fsign NaN = 0"
| "fsign PInf = 1"
| "fsign NInf = - 1"
| "fsign (Fin a) = (if 0 < a then 1 else if a < 0 then - 1 else 0)"

fun fmul :: "fnum \<Rightarrow> fnum \<Rightarrow> fnum" where
  "fmul NaN _ = NaN"
| "fmul _ NaN = NaN"
| "fmul (Fin a) (Fin b) = Fin (a * b)"
| "fmul x y =
     (if fsign x * fsign y = 0 then NaN else if 0 < fsign x * fsign y then PInf else NInf)"

fun fdiv :: "fnum \<Rightarrow> fnum \<Rightarrow> fnum" where
  "fdiv NaN _ = NaN"
| "fdiv _ NaN = NaN"
| "fdiv (Fin a) (Fin b) =
     (if b \<noteq> 0 then Fin (a / b)
      else if 0 < a then PInf else if a < 0 then NInf else NaN)"
| "fdiv (Fin a) _ = Fin 0"
| "fdiv PInf (Fin b) = (if 0 \<le> b then PInf else NInf)"
| "fdiv NInf (Fin b) = (if 0 \<le> b then NInf else PInf)"
| "fdiv _ _ = NaN"

fun fgt :: "fnum \<Rightarrow> fnum \<Rightarrow> bool" where
  "fgt NaN _ = False"
| "fgt _ NaN = False"
| "fgt PInf y = (y \<noteq> PInf)"
| "fgt NInf _ = False"
| "fgt (Fin a) PInf = False"
| "fgt (Fin a) NInf = True"
| "fgt (Fin a) (Fin b) = (b < a)"

definition flt :: "fnum \<Rightarrow> fnum \<Rightarrow> bool" where
  "flt x y = fgt y x"

definition notna :: "fnum \<Rightarrow> bool" where
  "notna v = (v \<noteq> NaN)"

definition fsum :: "fnum list \<Rightarrow> fnum" where
  "fsum vs = foldl fadd (Fin 0) vs"

section \<open>Series operations\<close>

text \<open>
  \<open>Series.rolling(window=w).mean()\<close>: \<open>min_periods\<close> defaults to the window, so position
  \<open>i\<close> holds the mean of the observations among the last \<open>w\<close> positions up to \<open>i\<close> when
  there are at least \<open>w\<close> of them, and NaN otherwise.
\<close>

definition rolling_mean :: "nat \<Rightarrow> fnum list \<Rightarrow> fnum list" where
  "rolling_mean w xs =
     map (\<lambda>i. let win = drop (i + 1 - w) (take (i + 1) xs);
                 obs = filter notna win
             in if w \<le> length obs \<and> obs \<noteq> []
                then fdiv (fsum obs) (Fin (of_nat (length obs))) else NaN)
         [0..<length xs]"

text \<open>\<open>Series.diff()\<close>: NaN at the first position, then the difference to the previous row.\<close>

fun diff :: "fnum list \<Rightarrow> fnum list" where
  "diff [] = []"
| "diff (x # xs) = NaN # map2 (\<lambda>prev cur. fsub cur prev) (x # xs) xs"

text \<open>\<open>s.where(cond, other)\<close> keeps a value where the condition holds and puts \<open>other\<close> elsewhere.\<close>

definition series_where :: "(fnum \<Rightarrow> bool) \<Rightarrow> fnum \<Rightarrow> fnum list \<Rightarrow> fnum list" where
  "series_where cond other s = map (\<lambda>v. if cond v then v else other) s"

text \<open>
  \<open>Series.ewm(span=n, adjust=False).mean()\<close> on a column without missing values: the first
  value seeds the average, and each later one enters with weight \<open>alpha = 2 / (n + 1)\<close>.
\<close>

fun ewm_from :: "rat \<Rightarrow> rat \<Rightarrow> rat list \<Rightarrow> rat list" where
  "ewm_from alpha weighted [] = []"
| "ewm_from alpha weighted (cur # rest) =
     (let weighted' = (1 - alpha) * weighted + alpha * cur
      in weighted' # ewm_from alpha weighted' rest)"

definition ewm_mean :: "nat \<Rightarrow> rat list \<Rightarrow> rat list" where
  "ewm_mean spn vals =
     (case vals of [] \<Rightarrow> [] | v # rest \<Rightarrow> v # ewm_from (2 / (of_nat spn + 1)) v rest)"

section \<open>Indicators of the chart loop\<close>

text \<open>
  The closes of one price history are finite numbers (a PriceSeries has no missing close),
  so \<open>hist["Close"]\<close> is a list of rationals, embedded into the column type where an
  operation can produce NaN.
\<close>

definition sma :: "nat \<Rightarrow> rat list \<Rightarrow> fnum list" where
  "sma n close = rolling_mean n (map Fin close)"

definition delta :: "rat list \<Rightarrow> fnum list" where
  "delta close = diff (map Fin close)"

text \<open>The two columns under the rolling means: \<open>delta.where(delta > 0, 0)\<close> and
  \<open>-delta.where(delta < 0, 0)\<close>. A comparison with NaN is false, so the NaN at the first
  position of \<open>delta\<close> is replaced by 0 in both.\<close>

definition delta_up :: "rat list \<Rightarrow> fnum list" where
  "delta_up close = series_where (\<lambda>d. fgt d (Fin 0)) (Fin 0) (delta close)"

definition delta_down :: "rat list \<Rightarrow> fnum list" where
  "delta_down close = map fneg (series_where (\<lambda>d. flt d (Fin 0)) (Fin 0) (delta close))"

definition gain :: "rat list \<Rightarrow> fnum list" where
  "gain close = rolling_mean 14 (delta_up close)"

definition loss :: "rat list \<Rightarrow> fnum list" where
  "loss close = rolling_mean 14 (delta_down close)"

definition rs :: "rat list \<Rightarrow> fnum list" where
  "rs close = map2 fdiv (gain close) (loss close)"

definition rsi :: "rat list \<Rightarrow> fnum list" where
  "rsi close = map (\<lambda>r. fsub (Fin 100) (fdiv (Fin 100) (fadd (Fin 1) r))) (rs close)"

definition exp1 :: "rat list \<Rightarrow> rat list" where
  "exp1 close = ewm_mean 12 close"

definition exp2 :: "rat list \<Rightarrow> rat list" where
  "exp2 close = ewm_mean 26 close"

definition macd :: "rat list \<Rightarrow> rat list" where
  "macd close = map2 (\<lambda>a b. a - b) (exp1 close) (exp2 close)"

definition signal :: "rat list \<Rightarrow> rat list" where
  "signal close = ewm_mean 9 (macd close)"

text \<open>
  The day's move split into its two sides, as finite numbers: the rise and the fall of the
  close against the previous day, and 0 on the first day, where the delta is NaN and both
  \<open>where\<close> calls put their 0.
\<close>

definition up_move :: "rat list \<Rightarrow> nat \<Rightarrow> rat" where
  "up_move close k = (if k = 0 then 0 else max (close ! k - close ! (k - 1)) 0)"

definition down_move :: "rat list \<Rightarrow> nat \<Rightarrow> rat" where
  "down_move close k = (if k = 0 then 0 else max (- (close ! k - close ! (k - 1))) 0)"

text \<open>One cell of the RSI column, from the average gain and the average loss of its row.\<close>

definition rsi_of :: "fnum \<Rightarrow> fnum \<Rightarrow> fnum" where
  "rsi_of g l = fsub (Fin 100) (fdiv (Fin 100) (fadd (Fin 1) (fdiv g l)))"

section \<open>The ticker input\<close>

text \<open>
  \<open>tickers = [t.strip().upper() for t in tickers_input.split(",") if t.strip()]\<close>.
  Strings are lists of characters and the model covers ASCII input: \<open>strip\<close> removes the
  ASCII characters for which Python's \<open>str.isspace\<close> holds (codes 9 to 13 and 28 to 32) from
  both ends, and \<open>upper\<close> maps the letters a to z to A to Z and leaves every other character
  as it is.
\<close>

definition isspace :: "char \<Rightarrow> bool" where
  "isspace c = (let n = (of_char c :: nat) in (9 \<le> n \<and> n \<le> 13) \<or> (28 \<le> n \<and> n \<le> 32))"

definition strip :: "string \<Rightarrow> string" where
  "strip s = rev (dropWhile isspace (rev (dropWhile isspace s)))"

definition upper_char :: "char \<Rightarrow> char" where
  "upper_char c =
     (let n = (of_char c :: nat) in if 97 \<le> n \<and> n \<le> 122 then char_of (n - 32) else c)"

definition upper :: "string \<Rightarrow> string" where
  "upper s = map upper_char s"

text \<open>\<open>s.split(sep)\<close> for a separator of one character: always at least one piece.\<close>

fun split :: "char \<Rightarrow> string \<Rightarrow> string list" where
  "split sep [] = [[]]"
| "split sep (c # cs) =
     (if c = sep then [] # split sep cs
      else (case split sep cs of [] \<Rightarrow> [[c]] | piece # pieces \<Rightarrow> (c # piece) # pieces))"

definition tickers :: "string \<Rightarrow> string list" where
  "tickers tickers_input =
     map (\<lambda>t. upper (strip t)) (filter (\<lambda>t. strip t \<noteq> []) (split (CHR '','') tickers_input))"

section \<open>The metrics table and its summary\<close>

text \<open>
  The provider's info record, with the six keys the program reads; a key that is missing
  is \<open>None\<close>. A cell of the metrics table is either the marker that \<open>info.get\<close> puts for
  a missing key (the string "N/A" in one script, \<open>pd.NA\<close> in the other) or the value.
\<close>

record info =
  shortName :: "string option"
  currentPrice :: "rat option"
  marketCap :: "rat option"
  fiftyTwoWeekHigh :: "rat option"
  fiftyTwoWeekLow :: "rat option"
  trailingPE :: "rat option"

datatype 'a cell = NA | Val 'a

definition dict_get :: "'a option \<Rightarrow> 'a cell" where
  "dict_get v = (case v of None \<Rightarrow> NA | Some x \<Rightarrow> Val x)"

record row =
  Ticker :: string
  Name :: "string cell"
  Price :: "rat cell"
  Market_Cap :: "rat cell"
  High_52w :: "rat cell"
  Low_52w :: "rat cell"
  PE_Ratio :: "rat cell"

definition make_row :: "string \<Rightarrow> info \<Rightarrow> row" where
  "make_row ticker i =
     \<lparr>Ticker = ticker,
      Name = dict_get (shortName i),
      Price = dict_get (currentPrice i),
      Market_Cap = dict_get (marketCap i),
      High_52w = dict_get (fiftyTwoWeekHigh i),
      Low_52w = dict_get (fiftyTwoWeekLow i),
      PE_Ratio = dict_get (trailingPE i)\<rparr>"

text \<open>
  \<open>column.replace("N/A", pd.NA).dropna().astype(float).mean()\<close> (the second script starts at
  \<open>dropna\<close>): the marker cells are dropped and the rest is averaged; the mean of an empty
  column is NaN.
\<close>

definition dropna_cells :: "'a cell list \<Rightarrow> 'a list" where
  "dropna_cells col = concat (map (\<lambda>c. case c of NA \<Rightarrow> [] | Val x \<Rightarrow> [x]) col)"

definition column_mean :: "rat cell list \<Rightarrow> fnum" where
  "column_mean col =
     (let present = dropna_cells col
      in if present = [] then NaN
         else fdiv (fsum (map Fin present)) (Fin (of_nat (length present))))"

definition avg_pe :: "row list \<Rightarrow> fnum" where
  "avg_pe df = column_mean (map PE_Ratio df)"

definition avg_price :: "row list \<Rightarrow> fnum" where
  "avg_price df = column_mean (map Price df)"

definition avg_mcap :: "row list \<Rightarrow> fnum" where
  "avg_mcap df = column_mean (map Market_Cap df)"

text \<open>What a metric widget shows: the average if \<open>pd.notna\<close> holds of it, else "N/A".\<close>

definition metric_value :: "fnum \<Rightarrow> fnum cell" where
  "metric_value avg = (if notna avg then Val avg else NA)"

section \<open>The return matrix of the heatmap\<close>

text \<open>
  A price history is a list of dates (numbered days) with their closes, in ascending order
  of date. \<open>pd.DataFrame(hist_data)\<close> makes one column per key of the dictionary and one
  row per date of the sorted union of the dates; a symbol without a close on a date has NaN
  there. A frame is kept as its list of rows, each with its date.
\<close>

type_synonym price_series = "(nat \<times> rat) list"

type_synonym frame = "(nat \<times> fnum list) list"

definition aligned_dates :: "(string \<times> price_series) list \<Rightarrow> nat list" where
  "aligned_dates hist_data = sort (remdups (concat (map (\<lambda>(t, s). map fst s) hist_data)))"

definition frame_cell :: "price_series \<Rightarrow> nat \<Rightarrow> fnum" where
  "frame_cell s d = (case map_of s d of None \<Rightarrow> NaN | Some c \<Rightarrow> Fin c)"

definition data_frame :: "(string \<times> price_series) list \<Rightarrow> frame" where
  "data_frame hist_data =
     map (\<lambda>d. (d, map (\<lambda>(t, s). frame_cell s d) hist_data)) (aligned_dates hist_data)"

text \<open>
  \<open>DataFrame.pct_change()\<close> computes \<open>data / data.shift(1) - 1\<close>, where \<open>data\<close> is the frame
  itself or the frame with every NaN replaced by the last value above it in its column.
  Which of the two a call without arguments takes is the library's default and not written
  in the program: pandas before version 3 fills forward (\<open>fill_method='pad'\<close>), pandas 3
  does not. The default is a parameter of the model.
\<close>

datatype fill_method = Pad | No_fill

fun ffill_from :: "fnum list \<Rightarrow> fnum list list \<Rightarrow> fnum list list" where
  "ffill_from prev [] = []"
| "ffill_from prev (r # rest) =
     (let r' = map2 (\<lambda>p x. if x = NaN then p else x) prev r in r' # ffill_from r' rest)"

definition ffill :: "fnum list list \<Rightarrow> fnum list list" where
  "ffill rows = (case rows of [] \<Rightarrow> [] | r # rest \<Rightarrow> r # ffill_from r rest)"

definition pct_cell :: "fnum \<Rightarrow> fnum \<Rightarrow> fnum" where
  "pct_cell cur prev = fsub (fdiv cur prev) (Fin 1)"

fun pct_rows :: "fnum list list \<Rightarrow> fnum list list" where
  "pct_rows [] = []"
| "pct_rows (r # rest) =
     map (\<lambda>_. NaN) r # map2 (\<lambda>prev cur. map2 pct_cell cur prev) (r # rest) rest"

definition fill_rows :: "fill_method \<Rightarrow> fnum list list \<Rightarrow> fnum list list" where
  "fill_rows fill rows = (case fill of Pad \<Rightarrow> ffill rows | No_fill \<Rightarrow> rows)"

definition pct_change :: "fill_method \<Rightarrow> frame \<Rightarrow> frame" where
  "pct_change fill df =
     (let data = fill_rows fill (map snd df) in zip (map fst df) (pct_rows data))"

definition dropna :: "frame \<Rightarrow> frame" where
  "dropna df = filter (\<lambda>(d, r). list_all notna r) df"

definition scale :: "rat \<Rightarrow> frame \<Rightarrow> frame" where
  "scale k df = map (\<lambda>(d, r). (d, map (\<lambda>v. fmul v (Fin k)) r)) df"

definition returns :: "fill_method \<Rightarrow> (string \<times> price_series) list \<Rightarrow> frame" where
  "returns fill hist_data = scale 100 (dropna (pct_change fill (data_frame hist_data)))"



section \<open>The watchlist run\<close>

text \<open>
  What the page shows, in order, is a list of events; drawing them is the work of the
  display layer, and every display call is taken to return. The provider is outside the program:
  the info lookup, the download of the first loop and the download of the chart loop are
  functions of the ticker that return the exception's text (\<open>Inl\<close>) or the data; with
  them comes the default fill of \<open>pct_change\<close> of the installed pandas. Both
  scripts have the same run; the first one computes all five indicator columns for a
  chart, the second one the two moving averages only, and downloads through a cache.
\<close>

record indicators =
  Close :: "rat list"
  SMA20 :: "fnum list"
  SMA50 :: "fnum list"
  RSI :: "fnum list"
  MACD :: "rat list"
  Signal :: "rat list"

datatype event =
    Error string string
  | Subheader string
  | Dataframe "row list"
  | Metric string "fnum cell"
  | Download_button "row list"
  | Heatmap "string list" frame
  | Chart string indicators
  | Warning string string

record market =
  info_of :: "string \<Rightarrow> string + info"
  close_of :: "string \<Rightarrow> string + price_series"
  hist_of :: "string \<Rightarrow> string + price_series"
  pct_fill :: fill_method

record fetched =
  data :: "row list"
  hist_data :: "(string \<times> price_series) list"
  shown :: "event list"

text \<open>
  The body of the first loop for one ticker. The row is appended before the download, so
  a download that raises leaves the row in place; either exception is caught and shown.
\<close>

definition fetch_one :: "market \<Rightarrow> fetched \<Rightarrow> string \<Rightarrow> fetched" where
  "fetch_one m st ticker =
     (case info_of m ticker of
        Inl e \<Rightarrow> st\<lparr>shown := shown st @ [Error ticker e]\<rparr>
      | Inr i \<Rightarrow>
          (let st1 = st\<lparr>data := data st @ [make_row ticker i]\<rparr>
           in case close_of m ticker of
                Inl e \<Rightarrow> st1\<lparr>shown := shown st1 @ [Error ticker e]\<rparr>
              | Inr s \<Rightarrow> st1\<lparr>hist_data := AList.update ticker s (hist_data st1)\<rparr>))"

definition fetch_all :: "market \<Rightarrow> string list \<Rightarrow> fetched" where
  "fetch_all m ts = foldl (fetch_one m) \<lparr>data = [], hist_data = [], shown = []\<rparr> ts"

definition indicators_of :: "rat list \<Rightarrow> indicators" where
  "indicators_of c =
     \<lparr>Close = c, SMA20 = sma 20 c, SMA50 = sma 50 c, RSI = rsi c,
      MACD = macd c, Signal = signal c\<rparr>"

text \<open>The body of the chart loop for one ticker: a chart, or a warning if anything raised.\<close>

definition chart_one :: "market \<Rightarrow> string \<Rightarrow> event" where
  "chart_one m ticker =
     (case hist_of m ticker of
        Inl e \<Rightarrow> Warning ticker e
      | Inr hist \<Rightarrow> Chart ticker (indicators_of (map snd hist)))"

definition generate_watchlist :: "market \<Rightarrow> string list \<Rightarrow> event list" where
  "generate_watchlist m ts =
     (let st = fetch_all m ts; df = data st
      in if df \<noteq> [] then
           shown st @
           [Subheader ''Stock Metrics'', Dataframe df,
            Subheader ''Market Sentiment Summary'',
            Metric ''Avg Price'' (metric_value (avg_price df)),
            Metric ''Avg Market Cap'' (metric_value (avg_mcap df)),
            Metric ''Avg P/E Ratio'' (metric_value (avg_pe df)),
            Download_button df] @
           (if hist_data st \<noteq> [] then
              [Subheader ''Performance Heatmap (6M Daily Returns)'',
               Heatmap (map fst (hist_data st)) (returns (pct_fill m) (hist_data st))]
            else []) @
           [Subheader ''Price History with Indicators''] @
           map (chart_one m) ts
         else shown st)"

definition app :: "market \<Rightarrow> string \<Rightarrow> event list" where
  "app m tickers_input = generate_watchlist m (tickers tickers_input)"

section \<open>Reading the output\<close>

text \<open>
  What the first loop shows for one ticker, and three views of the output used to state
  what a run contains: the errors shown for a ticker, the rows of the table for a ticker,
  and the events of the chart loop.
\<close>

definition fetch_events :: "market \<Rightarrow> string \<Rightarrow> event list" where
  "fetch_events m ticker =
     (case info_of m ticker of
        Inl e \<Rightarrow> [Error ticker e]
      | Inr i \<Rightarrow> (case close_of m ticker of Inl e \<Rightarrow> [Error ticker e] | Inr s \<Rightarrow> []))"




section \<open>Sample providers\<close>

text \<open>
  Two providers for concrete runs: one whose info lookup fails for the ticker B only, and
  one whose info lookup fails for every ticker. Their downloads always succeed.
\<close>

definition sample_info :: "rat option \<Rightarrow> rat option \<Rightarrow> info" where
  "sample_info price pe =
     \<lparr>shortName = None, currentPrice = price, marketCap = None, fiftyTwoWeekHigh = None,
      fiftyTwoWeekLow = None, trailingPE = pe\<rparr>"


definition failing_market :: market where
  "failing_market =
     \<lparr>info_of = (\<lambda>t. Inl ''no data''),
      close_of = (\<lambda>t. Inr [(0, 10), (1, 11)]),
      hist_of = (\<lambda>t. Inr [(0, 10), (1, 11)]),
      pct_fill = Pad\<rparr>"

section \<open>Rolling means\<close>

lemma foldl_fadd_Fin: "foldl fadd (Fin a) (map Fin xs) = Fin (a + sum_list xs)"
  by (induction xs arbitrary: a) (simp_all add: add.assoc)

lemma fsum_Fin: "fsum (map Fin xs) = Fin (sum_list xs)"
  by (simp add: fsum_def foldl_fadd_Fin)

lemma filter_notna_Fin: "filter notna (map Fin xs) = map Fin xs"
  by (induction xs) (simp_all add: notna_def)

lemma rolling_mean_length: "length (rolling_mean w xs) = length xs"
  by (simp add: rolling_mean_def)

lemma rolling_mean_Fin_nth:
  assumes "i < length xs" and "0 < w"
  shows "rolling_mean w (map Fin xs) ! i =
         (if i + 1 < w then NaN
          else Fin (sum_list (drop (i + 1 - w) (take (i + 1) xs)) / of_nat w))"
proof -
  let ?win = "drop (i + 1 - w) (take (i + 1) xs)"
  have win: "drop (i + 1 - w) (take (i + 1) (map Fin xs)) = map Fin ?win"
    by (simp only: take_map drop_map)
  have len: "length ?win = (if i + 1 < w then i + 1 else w)"
    using assms by auto
  have "rolling_mean w (map Fin xs) ! i =
        (let win = drop (i + 1 - w) (take (i + 1) (map Fin xs)); obs = filter notna win
         in if w \<le> length obs \<and> obs \<noteq> []
            then fdiv (fsum obs) (Fin (of_nat (length obs))) else NaN)"
    using assms(1) unfolding rolling_mean_def by simp
  also have "\<dots> = (if w \<le> length ?win \<and> ?win \<noteq> []
            then fdiv (Fin (sum_list ?win)) (Fin (of_nat (length ?win))) else NaN)"
    unfolding win Let_def filter_notna_Fin fsum_Fin by simp
  also have "\<dots> = (if i + 1 < w then NaN else Fin (sum_list ?win / of_nat w))"
  proof (cases "i + 1 < w")
    case True
    then show ?thesis using len by simp
  next
    case False
    then have l: "length ?win = w" using len by simp
    then have "?win \<noteq> []" using assms(2) by auto
    then show ?thesis using False l assms(2) by simp
  qed
  finally show ?thesis .
qed

lemma sum_list_window:
  "k + n \<le> length xs \<Longrightarrow> sum_list (drop k (take (k + n) xs)) = (\<Sum>j<n. xs ! (k + j))"
proof -
  assume h: "k + n \<le> length xs"
  have "sum_list (drop k (take (k + n) xs)) =
        (\<Sum>j = 0..<n. drop k (take (k + n) xs) ! j)"
    using h by (simp add: sum_list_sum_nth)
  also have "\<dots> = (\<Sum>j = 0..<n. xs ! (k + j))"
    using h by (intro sum.cong) simp_all
  finally show ?thesis by (simp add: lessThan_atLeast0)
qed

lemma count_from: "0 < n \<Longrightarrow> length (filter (\<lambda>i. n \<le> i + 1) [0..<L]) = L + 1 - n"
  by (induction L) auto


lemma rolling_mean_Fin_window:
  assumes "i < length xs" and "0 < w"
  shows "rolling_mean w (map Fin xs) ! i =
         (if i < w - 1 then NaN else Fin ((\<Sum>j<w. xs ! (i - (w - 1) + j)) / of_nat w))"
proof (cases "i < w - 1")
  case True
  then have "i + 1 < w" by arith
  then show ?thesis
    using True rolling_mean_Fin_nth [OF assms] by simp
next
  case False
  define k where "k = i - (w - 1)"
  have e1: "i + 1 - w = k" and e2: "i + 1 = k + w"
    using False assms(2) by (auto simp: k_def)
  have le: "k + w \<le> length xs"
    using assms(1) e2 by arith
  have "\<not> i + 1 < w" using False by arith
  then have "rolling_mean w (map Fin xs) ! i =
             Fin (sum_list (drop (i + 1 - w) (take (i + 1) xs)) / of_nat w)"
    using rolling_mean_Fin_nth [OF assms] by simp
  also have "drop (i + 1 - w) (take (i + 1) xs) = drop k (take (k + w) xs)"
    using e1 e2 by simp
  also have "sum_list (drop k (take (k + w) xs)) = (\<Sum>j<w. xs ! (k + j))"
    by (rule sum_list_window [OF le])
  finally show ?thesis
    using False by (simp add: k_def)
qed

lemma rolling_mean_Fin_count:
  assumes "0 < w"
  shows "length (filter notna (rolling_mean w (map Fin xs))) = length xs + 1 - w"
proof -
  have "{i. i < length (rolling_mean w (map Fin xs)) \<and> notna (rolling_mean w (map Fin xs) ! i)}
        = {w - 1..<length xs}"
  proof (rule set_eqI)
    fix i
    show "i \<in> {i. i < length (rolling_mean w (map Fin xs)) \<and>
                   notna (rolling_mean w (map Fin xs) ! i)} \<longleftrightarrow> i \<in> {w - 1..<length xs}"
    proof (cases "i < length xs")
      case True
      then show ?thesis
        using rolling_mean_Fin_window [OF True assms]
        by (simp add: rolling_mean_length notna_def)
    next
      case False
      then show ?thesis by (simp add: rolling_mean_length)
    qed
  qed
  then have "length (filter notna (rolling_mean w (map Fin xs))) = card {w - 1..<length xs}"
    by (simp only: length_filter_conv_card)
  then show ?thesis using assms by simp
qed

text \<open>
  C2. For a price series of length \<open>L\<close> and a window \<open>n\<close> (20 and 50 in the charts), the
  SMA column has the length of the series and exactly \<open>max(0, L - n + 1)\<close> available values;
  every position before \<open>n - 1\<close> is NaN, and every later one is the arithmetic mean of the
  \<open>n\<close> closes that end there. For \<open>L < n\<close> every position is before \<open>n - 1\<close>.
\<close>

theorem sma_window_mean:
  assumes "0 < n"
  shows "length (sma n close) = length close \<and>
         int (length (filter notna (sma n close))) = max 0 (int (length close) - int n + 1) \<and>
         (\<forall>i<length close.
            sma n close ! i =
              (if i < n - 1 then NaN
               else Fin ((\<Sum>j<n. close ! (i - (n - 1) + j)) / of_nat n)))"
proof (intro conjI allI impI)
  show "length (sma n close) = length close"
    by (simp add: sma_def rolling_mean_length)
next
  fix i assume i: "i < length close"
  show "sma n close ! i =
          (if i < n - 1 then NaN else Fin ((\<Sum>j<n. close ! (i - (n - 1) + j)) / of_nat n))"
    unfolding sma_def by (rule rolling_mean_Fin_window [OF i assms])
next
  have "length (filter notna (sma n close)) = length close + 1 - n"
    unfolding sma_def by (rule rolling_mean_Fin_count [OF assms])
  then show "int (length (filter notna (sma n close))) = max 0 (int (length close) - int n + 1)"
    by (simp add: max_def)
qed


theorem sma_window_mean_witness:
  "(0::nat) < 3 \<and> (3::nat) < length [10, 11, 12, 11, 13 :: rat] \<and>
   sma 3 [10, 11, 12, 11, 13] ! 3 = Fin (34 / 3) \<and>
   sma 3 [10, 11, 12, 11, 13] ! 1 = NaN \<and>
   length (filter notna (sma 3 [10, 11, 12, 11, 13])) = 3"
  using sma_window_mean [of 3 "[10, 11, 12, 11, 13]"]
  by (simp add: lessThan_nat_numeral lessThan_Suc numeral_3_eq_3)

section \<open>Relative strength index\<close>

lemma delta_length: "length (delta close) = length close"
  by (cases close) (simp_all add: delta_def)

lemma delta_nth:
  assumes "k < length close"
  shows "delta close ! k = (if k = 0 then NaN else Fin (close ! k - close ! (k - 1)))"
proof (cases close)
  case Nil
  then show ?thesis using assms by simp
next
  case (Cons x xs)
  show ?thesis
  proof (cases k)
    case 0
    then show ?thesis by (simp add: delta_def Cons)
  next
    case (Suc j)
    then have j: "j < length xs" using assms Cons by simp
    then have "(Fin x # map Fin xs) ! j = Fin ((x # xs) ! j)"
      by (cases j) simp_all
    then show ?thesis
      using j by (simp add: delta_def Cons Suc fsub_def)
  qed
qed

lemma delta_up_nth:
  "k < length close \<Longrightarrow> delta_up close ! k = Fin (up_move close k)"
  by (simp add: delta_up_def series_where_def delta_length delta_nth up_move_def max_def)

lemma delta_down_nth:
  "k < length close \<Longrightarrow> delta_down close ! k = Fin (down_move close k)"
  by (simp add: delta_down_def series_where_def delta_length delta_nth down_move_def max_def
      flt_def)

lemma delta_up_length: "length (delta_up close) = length close"
  by (simp add: delta_up_def series_where_def delta_length)

lemma delta_down_length: "length (delta_down close) = length close"
  by (simp add: delta_down_def series_where_def delta_length)

lemma delta_up_Fin: "delta_up close = map Fin (map (up_move close) [0..<length close])"
  by (rule nth_equalityI) (simp_all add: delta_up_length delta_up_nth)

lemma delta_down_Fin: "delta_down close = map Fin (map (down_move close) [0..<length close])"
  by (rule nth_equalityI) (simp_all add: delta_down_length delta_down_nth)

lemma gain_nth:
  assumes "i < length close"
  shows "gain close ! i =
         (if i < 13 then NaN else Fin ((\<Sum>j<14. up_move close (i - 13 + j)) / 14))"
proof -
  have i: "i < length (map (up_move close) [0..<length close])" using assms by simp
  have "gain close ! i =
        (if i < 14 - 1 then NaN
         else Fin ((\<Sum>j<14. map (up_move close) [0..<length close] ! (i - (14 - 1) + j))
                   / of_nat 14))"
    unfolding gain_def delta_up_Fin by (rule rolling_mean_Fin_window [OF i]) simp
  also have "\<dots> = (if i < 13 then NaN else Fin ((\<Sum>j<14. up_move close (i - 13 + j)) / 14))"
  proof (cases "i < 13")
    case True
    then show ?thesis by simp
  next
    case False
    have "(\<Sum>j<14. map (up_move close) [0..<length close] ! (i - (14 - 1) + j)) =
          (\<Sum>j<14. up_move close (i - 13 + j))"
      using False assms by (intro sum.cong) auto
    then show ?thesis using False by simp
  qed
  finally show ?thesis .
qed

lemma loss_nth:
  assumes "i < length close"
  shows "loss close ! i =
         (if i < 13 then NaN else Fin ((\<Sum>j<14. down_move close (i - 13 + j)) / 14))"
proof -
  have i: "i < length (map (down_move close) [0..<length close])" using assms by simp
  have "loss close ! i =
        (if i < 14 - 1 then NaN
         else Fin ((\<Sum>j<14. map (down_move close) [0..<length close] ! (i - (14 - 1) + j))
                   / of_nat 14))"
    unfolding loss_def delta_down_Fin by (rule rolling_mean_Fin_window [OF i]) simp
  also have "\<dots> = (if i < 13 then NaN else Fin ((\<Sum>j<14. down_move close (i - 13 + j)) / 14))"
  proof (cases "i < 13")
    case True
    then show ?thesis by simp
  next
    case False
    have "(\<Sum>j<14. map (down_move close) [0..<length close] ! (i - (14 - 1) + j)) =
          (\<Sum>j<14. down_move close (i - 13 + j))"
      using False assms by (intro sum.cong) auto
    then show ?thesis using False by simp
  qed
  finally show ?thesis .
qed


lemma up_move_nonneg: "0 \<le> up_move close k"
  by (simp add: up_move_def)

lemma down_move_nonneg: "0 \<le> down_move close k"
  by (simp add: down_move_def)

lemma gain_cases:
  assumes "i < length close"
  shows "gain close ! i = NaN \<or> (\<exists>a. gain close ! i = Fin a \<and> 0 \<le> a)"
proof (cases "i < 13")
  case True
  then show ?thesis using gain_nth [OF assms] by simp
next
  case False
  define s where "s = (\<Sum>j<14. up_move close (i - 13 + j)) / 14"
  have "0 \<le> (\<Sum>j<14. up_move close (i - 13 + j))"
    by (intro sum_nonneg up_move_nonneg)
  then have "0 \<le> s" by (simp add: s_def)
  moreover have "gain close ! i = Fin s"
    using False gain_nth [OF assms] by (simp only: s_def if_False)
  ultimately show ?thesis by blast
qed

lemma loss_cases:
  assumes "i < length close"
  shows "loss close ! i = NaN \<or> (\<exists>b. loss close ! i = Fin b \<and> 0 \<le> b)"
proof (cases "i < 13")
  case True
  then show ?thesis using loss_nth [OF assms] by simp
next
  case False
  define s where "s = (\<Sum>j<14. down_move close (i - 13 + j)) / 14"
  have "0 \<le> (\<Sum>j<14. down_move close (i - 13 + j))"
    by (intro sum_nonneg down_move_nonneg)
  then have "0 \<le> s" by (simp add: s_def)
  moreover have "loss close ! i = Fin s"
    using False loss_nth [OF assms] by (simp only: s_def if_False)
  ultimately show ?thesis by blast
qed

lemma gain_length: "length (gain close) = length close"
  by (simp add: gain_def rolling_mean_length delta_up_length)

lemma loss_length: "length (loss close) = length close"
  by (simp add: loss_def rolling_mean_length delta_down_length)

lemma rsi_nth: "i < length close \<Longrightarrow> rsi close ! i = rsi_of (gain close ! i) (loss close ! i)"
  by (simp add: rsi_def rs_def rsi_of_def gain_length loss_length)

lemma rsi_of_NaN: "rsi_of NaN l = NaN" "rsi_of g NaN = NaN"
  by (cases g; simp add: rsi_of_def fsub_def)+

lemma rsi_of_flat: "rsi_of (Fin 0) (Fin 0) = NaN"
  by (simp add: rsi_of_def fsub_def)

lemma rsi_of_no_loss: "0 < a \<Longrightarrow> rsi_of (Fin a) (Fin 0) = Fin 100"
  by (simp add: rsi_of_def fsub_def)

lemma rsi_of_range:
  assumes "0 \<le> a" and "0 < b"
  shows "\<exists>r. rsi_of (Fin a) (Fin b) = Fin r \<and> 0 \<le> r \<and> r \<le> 100"
proof -
  define q where "q = a / b"
  have q: "0 \<le> q" using assms by (simp add: q_def)
  then have pos: "0 < 1 + q" by linarith
  have le: "100 / (1 + q) \<le> 100"
    using q pos by (simp add: field_simps)
  have ge: "0 \<le> 100 / (1 + q)"
    using pos by (intro divide_nonneg_pos) simp_all
  have "fdiv (Fin a) (Fin b) = Fin q"
    using assms by (simp add: q_def)
  then have "rsi_of (Fin a) (Fin b) = Fin (100 - 100 / (1 + q))"
    using pos by (simp add: rsi_of_def fsub_def)
  then show ?thesis using le ge by simp
qed

text \<open>
  C1. At every position the RSI is either NaN (not available) or a number in \<open>[0, 100]\<close>.
  Where the average loss is 0 and the average gain is positive, the quotient is infinite
  and the RSI is exactly 100; where both averages are 0, the quotient is NaN and so is the
  RSI.
\<close>

theorem rsi_bounds:
  "length (rsi close) = length close \<and>
   (\<forall>i<length close.
      (rsi close ! i = NaN \<or> (\<exists>r. rsi close ! i = Fin r \<and> 0 \<le> r \<and> r \<le> 100)) \<and>
      (\<forall>g. loss close ! i = Fin 0 \<and> gain close ! i = Fin g \<and> 0 < g \<longrightarrow>
           rsi close ! i = Fin 100) \<and>
      (loss close ! i = Fin 0 \<and> gain close ! i = Fin 0 \<longrightarrow> rsi close ! i = NaN))"
proof (intro conjI allI impI)
  show "length (rsi close) = length close"
    by (simp add: rsi_def rs_def gain_length loss_length)
next
  fix i assume i: "i < length close"
  consider "gain close ! i = NaN \<or> loss close ! i = NaN"
    | a b where "gain close ! i = Fin a" "loss close ! i = Fin b" "0 \<le> a" "0 \<le> b"
    using gain_cases [OF i] loss_cases [OF i] by blast
  then show "rsi close ! i = NaN \<or> (\<exists>r. rsi close ! i = Fin r \<and> 0 \<le> r \<and> r \<le> 100)"
  proof cases
    case 1
    then show ?thesis using rsi_nth [OF i] rsi_of_NaN by auto
  next
    case 2
    show ?thesis
    proof (cases "b = 0")
      case False
      then have "0 < b" using 2 by simp
      then show ?thesis using rsi_of_range [OF 2(3)] rsi_nth [OF i] 2 by simp
    next
      case True
      show ?thesis
      proof (cases "a = 0")
        case True
        then show ?thesis using \<open>b = 0\<close> rsi_nth [OF i] 2 rsi_of_flat by simp
      next
        case False
        then have "0 < a" using 2 by simp
        then show ?thesis using \<open>b = 0\<close> rsi_nth [OF i] 2 rsi_of_no_loss by simp
      qed
    qed
  qed
next
  fix i g assume "i < length close"
    and "loss close ! i = Fin 0 \<and> gain close ! i = Fin g \<and> 0 < g"
  then show "rsi close ! i = Fin 100"
    using rsi_nth rsi_of_no_loss by simp
next
  fix i assume "i < length close" and "loss close ! i = Fin 0 \<and> gain close ! i = Fin 0"
  then show "rsi close ! i = NaN"
    using rsi_nth rsi_of_flat by simp
qed

theorem rsi_bounds_witness:
  "(13::nat) < length [1, 2, 3, 4, 5, 6, 7, 8, 9, 10, 11, 12, 13, 14, 15 :: rat] \<and>
   loss [1, 2, 3, 4, 5, 6, 7, 8, 9, 10, 11, 12, 13, 14, 15] ! 13 = Fin 0 \<and>
   gain [1, 2, 3, 4, 5, 6, 7, 8, 9, 10, 11, 12, 13, 14, 15] ! 13 = Fin (13 / 14) \<and>
   rsi [1, 2, 3, 4, 5, 6, 7, 8, 9, 10, 11, 12, 13, 14, 15] ! 13 = Fin 100"
proof -
  let ?c = "[1, 2, 3, 4, 5, 6, 7, 8, 9, 10, 11, 12, 13, 14, 15 :: rat]"
  have n: "(13::nat) < length ?c" by simp
  have g: "gain ?c ! 13 = Fin (13 / 14)" by code_simp
  have l: "loss ?c ! 13 = Fin 0" by code_simp
  have p: "(0::rat) < 13 / 14" by simp
  have "rsi ?c ! 13 = Fin 100"
    using rsi_bounds [of ?c, THEN conjunct2, rule_format, OF n,
        THEN conjunct2, THEN conjunct1, rule_format, of "13 / 14"] g l p
    by blast
  then show ?thesis using n g l by simp
qed

text \<open>
  C7. The average gain and the average loss of the RSI are the trailing rolling means of
  window 14 over the per-day gain \<open>max(delta, 0)\<close> and loss \<open>max(- delta, 0)\<close>, where
  \<open>delta\<close> is the close minus the previous close and is NaN on the first day (both
  per-day columns hold 0 there). Exactly the positions 0 to 12 of both averages are NaN.
\<close>

theorem rsi_averages:
  "length (gain close) = length close \<and> length (loss close) = length close \<and>
   (\<forall>i<length close.
      delta close ! i = (if i = 0 then NaN else Fin (close ! i - close ! (i - 1))) \<and>
      delta_up close ! i = Fin (if i = 0 then 0 else max (close ! i - close ! (i - 1)) 0) \<and>
      delta_down close ! i = Fin (if i = 0 then 0 else max (- (close ! i - close ! (i - 1))) 0) \<and>
      gain close ! i =
        (if i < 13 then NaN else Fin ((\<Sum>j<14. up_move close (i - 13 + j)) / 14)) \<and>
      loss close ! i =
        (if i < 13 then NaN else Fin ((\<Sum>j<14. down_move close (i - 13 + j)) / 14)))"
proof (intro conjI allI impI)
  fix i assume i: "i < length close"
  show "delta close ! i = (if i = 0 then NaN else Fin (close ! i - close ! (i - 1)))"
    by (rule delta_nth [OF i])
  show "delta_up close ! i = Fin (if i = 0 then 0 else max (close ! i - close ! (i - 1)) 0)"
    using delta_up_nth [OF i] by (simp only: up_move_def)
  show "delta_down close ! i =
        Fin (if i = 0 then 0 else max (- (close ! i - close ! (i - 1))) 0)"
    using delta_down_nth [OF i] by (simp only: down_move_def)
  show "gain close ! i =
        (if i < 13 then NaN else Fin ((\<Sum>j<14. up_move close (i - 13 + j)) / 14))"
    by (rule gain_nth [OF i])
  show "loss close ! i =
        (if i < 13 then NaN else Fin ((\<Sum>j<14. down_move close (i - 13 + j)) / 14))"
    by (rule loss_nth [OF i])
qed (simp_all add: gain_length loss_length)

theorem rsi_averages_witness:
  "(14::nat) < length [10, 11, 13, 12, 12, 14, 15, 13, 16, 17, 16, 18, 19, 18, 20 :: rat] \<and>
   delta_up [10, 11, 13, 12, 12, 14, 15, 13, 16, 17, 16, 18, 19, 18, 20] ! 14 = Fin 2 \<and>
   delta_down [10, 11, 13, 12, 12, 14, 15, 13, 16, 17, 16, 18, 19, 18, 20] ! 14 = Fin 0 \<and>
   gain [10, 11, 13, 12, 12, 14, 15, 13, 16, 17, 16, 18, 19, 18, 20] ! 14 = Fin (15 / 14) \<and>
   loss [10, 11, 13, 12, 12, 14, 15, 13, 16, 17, 16, 18, 19, 18, 20] ! 14 = Fin (5 / 14)"
  using rsi_averages [of "[10, 11, 13, 12, 12, 14, 15, 13, 16, 17, 16, 18, 19, 18, 20]",
      THEN conjunct2, THEN conjunct2, rule_format, of 14]
  by (simp add: lessThan_nat_numeral lessThan_Suc up_move_def down_move_def)

section \<open>Exponential averages\<close>

lemma ewm_from_length: "length (ewm_from alpha w xs) = length xs"
  by (induction xs arbitrary: w) (simp_all add: Let_def)

lemma ewm_from_nth:
  "i < length xs \<Longrightarrow>
   ewm_from alpha w xs ! i = (1 - alpha) * ((w # ewm_from alpha w xs) ! i) + alpha * xs ! i"
proof (induction xs arbitrary: w i)
  case Nil
  then show ?case by simp
next
  case (Cons x xs)
  show ?case
  proof (cases i)
    case 0
    then show ?thesis by (simp add: Let_def)
  next
    case (Suc j)
    then have "j < length xs" using Cons.prems by simp
    from Cons.IH [OF this, of "(1 - alpha) * w + alpha * x"]
    show ?thesis by (simp add: Suc Let_def)
  qed
qed

text \<open>
  C3. The exponential average used for MACD and Signal starts at the first close and
  follows \<open>ema[i] = close[i] * k + ema[i-1] * (1 - k)\<close> with \<open>k = 2 / (span + 1)\<close>; for the
  closes 10, 11, 12, 11, 13 and span 3 it is 10, 10.5, 11.25, 11.125, 12.0625. MACD is
  the average of span 12 minus the one of span 26, and Signal the average of span 9 of MACD.
\<close>

theorem ema_recurrence:
  "length (ewm_mean spn close) = length close \<and>
   (close \<noteq> [] \<longrightarrow> ewm_mean spn close ! 0 = close ! 0) \<and>
   (\<forall>i. 0 < i \<and> i < length close \<longrightarrow>
      ewm_mean spn close ! i =
        close ! i * (2 / (of_nat spn + 1)) +
        ewm_mean spn close ! (i - 1) * (1 - 2 / (of_nat spn + 1))) \<and>
   ewm_mean 3 [10, 11, 12, 11, 13] = [10, 21 / 2, 45 / 4, 89 / 8, 193 / 16] \<and>
   macd close = map2 (\<lambda>a b. a - b) (ewm_mean 12 close) (ewm_mean 26 close) \<and>
   signal close = ewm_mean 9 (macd close)"
proof (intro conjI allI impI)
  show "length (ewm_mean spn close) = length close"
    by (cases close) (simp_all add: ewm_mean_def ewm_from_length)
  show "ewm_mean spn close ! 0 = close ! 0" if "close \<noteq> []"
    using that by (cases close) (simp_all add: ewm_mean_def)
  show "ewm_mean 3 [10, 11, 12, 11, 13] = [10, 21 / 2, 45 / 4, 89 / 8, 193 / 16]"
    by (simp add: ewm_mean_def Let_def)
  show "macd close = map2 (\<lambda>a b. a - b) (ewm_mean 12 close) (ewm_mean 26 close)"
    by (simp add: macd_def exp1_def exp2_def)
  show "signal close = ewm_mean 9 (macd close)"
    by (simp add: signal_def)
next
  fix i assume h: "0 < i \<and> i < length close"
  then obtain x xs where c: "close = x # xs" by (cases close) auto
  from h obtain j where j: "i = Suc j" by (cases i) auto
  have "j < length xs" using h c j by simp
  from ewm_from_nth [OF this, of "2 / (of_nat spn + 1)" x]
  show "ewm_mean spn close ! i =
        close ! i * (2 / (of_nat spn + 1)) +
        ewm_mean spn close ! (i - 1) * (1 - 2 / (of_nat spn + 1))"
    by (simp add: ewm_mean_def c j mult.commute)
qed

theorem ema_recurrence_witness:
  "(0::nat) < 2 \<and> (2::nat) < length [10, 11, 12, 11, 13 :: rat] \<and>
   [10, 11, 12, 11, 13 :: rat] \<noteq> [] \<and>
   ewm_mean 3 [10, 11, 12, 11, 13] ! 0 = 10 \<and>
   ewm_mean 3 [10, 11, 12, 11, 13] ! 2 = 12 * (1 / 2) + ewm_mean 3 [10, 11, 12, 11, 13] ! 1 * (1 / 2)"
  using ema_recurrence [of 3 "[10, 11, 12, 11, 13]"]
  by simp

section \<open>Ticker parsing\<close>

lemma split_not_Nil: "split sep s \<noteq> []"
  by (induction s) (auto split: list.splits)

lemma split_append: "split sep (a @ sep # b) = split sep a @ split sep b"
proof (induction a)
  case Nil
  then show ?case by simp
next
  case (Cons c a)
  obtain p ps where "split sep a = p # ps"
    using split_not_Nil [of sep a] by (cases "split sep a") auto
  then show ?case using Cons by simp
qed

lemma split_no_sep: "p \<in> set (split sep s) \<Longrightarrow> sep \<notin> set p"
proof (induction s arbitrary: p)
  case Nil
  then show ?case by simp
next
  case (Cons c s)
  then show ?case
    by (cases "split sep s") (auto split: if_splits)
qed

lemma split_single: "sep \<notin> set s \<Longrightarrow> split sep s = [s]"
  by (induction s) auto

lemma last_dropWhile: "dropWhile P xs \<noteq> [] \<Longrightarrow> last (dropWhile P xs) = last xs"
  by (induction xs) (auto split: if_splits)

lemma strip_subset: "set (strip s) \<subseteq> set s"
proof -
  have "set (strip s) \<subseteq> set (dropWhile isspace s)"
    unfolding strip_def using set_dropWhileD by fastforce
  then show ?thesis using set_dropWhileD by fastforce
qed

lemma strip_last: "strip s \<noteq> [] \<Longrightarrow> \<not> isspace (last (strip s))"
  unfolding strip_def by (simp add: last_rev hd_dropWhile)

lemma strip_hd:
  assumes "strip s \<noteq> []"
  shows "\<not> isspace (hd (strip s))"
proof -
  let ?t = "dropWhile isspace s"
  have ne: "dropWhile isspace (rev ?t) \<noteq> []" using assms by (simp add: strip_def)
  have t: "?t \<noteq> []"
  proof
    assume a: "?t = []"
    have "dropWhile isspace (rev ?t) = []" unfolding a by simp
    then show False using ne by contradiction
  qed
  have "hd (strip s) = last (dropWhile isspace (rev ?t))"
    using ne by (simp add: strip_def hd_rev)
  also have "\<dots> = last (rev ?t)" by (rule last_dropWhile [OF ne])
  also have "\<dots> = hd ?t" using t by (simp add: last_rev)
  finally show ?thesis using hd_dropWhile [OF t] by simp
qed

lemma upper_char_idem: "upper_char (upper_char c) = upper_char c"
  by (auto simp: upper_char_def Let_def)

lemma isspace_upper_char: "isspace (upper_char c) = isspace c"
  by (auto simp: upper_char_def isspace_def Let_def)

lemma upper_char_comma: "upper_char c = CHR '','' \<longleftrightarrow> c = CHR '',''"
proof
  assume "upper_char c = CHR '',''"
  then have "(of_char (upper_char c) :: nat) = 44" by simp
  then have "(of_char c :: nat) = 44"
    by (auto simp: upper_char_def Let_def split: if_splits)
  then have "(of_char c :: nat) = of_char (CHR '','')" by simp
  then show "c = CHR '',''" by (simp only: of_char_eq_iff)
next
  assume "c = CHR '',''"
  then show "upper_char c = CHR '',''" by (simp add: upper_char_def)
qed

lemma upper_idem: "upper (upper s) = upper s"
  by (simp add: upper_def upper_char_idem)

lemma tickers_append: "tickers (a @ CHR '','' # b) = tickers a @ tickers b"
  by (simp add: tickers_def split_append)

lemma tickers_piece:
  "CHR '','' \<notin> set piece \<Longrightarrow>
   tickers piece = (if strip piece = [] then [] else [upper (strip piece)])"
  by (simp add: tickers_def split_single)




lemma tickers_elemD:
  assumes "t \<in> set (tickers inp)"
  shows "\<exists>p. p \<in> set (split (CHR '','') inp) \<and> strip p \<noteq> [] \<and> t = upper (strip p)"
  using assms unfolding tickers_def by auto

lemma upper_no_comma:
  assumes "CHR '','' \<notin> set q"
  shows "CHR '','' \<notin> set (upper q)"
proof
  assume "CHR '','' \<in> set (upper q)"
  then have "CHR '','' \<in> upper_char ` set q"
    by (simp only: upper_def set_map)
  then obtain x where x: "x \<in> set q" and "CHR '','' = upper_char x"
    by (rule imageE)
  then have "upper_char x = CHR '',''" by (rule_tac sym)
  then have "x = CHR '',''" by (simp only: upper_char_comma)
  then show False using assms x by blast
qed

lemma upper_hd: "q \<noteq> [] \<Longrightarrow> isspace (hd (upper q)) = isspace (hd q)"
  unfolding upper_def by (simp add: hd_map isspace_upper_char)

lemma upper_last: "q \<noteq> [] \<Longrightarrow> isspace (last (upper q)) = isspace (last q)"
  unfolding upper_def by (simp add: last_map isspace_upper_char)

lemma upper_Nil: "upper q = [] \<longleftrightarrow> q = []"
  unfolding upper_def by simp


lemma tickers_elem:
  assumes "t \<in> set (tickers inp)"
  shows "t \<noteq> [] \<and> \<not> isspace (hd t) \<and> \<not> isspace (last t) \<and> CHR '','' \<notin> set t \<and> upper t = t"
proof -
  from tickers_elemD [OF assms] obtain p
    where p: "p \<in> set (split (CHR '','') inp)" and ne: "strip p \<noteq> []"
      and t: "t = upper (strip p)"
    by blast
  have nc: "CHR '','' \<notin> set (strip p)"
    using split_no_sep [OF p] strip_subset [of p] by blast
  have "upper (strip p) \<noteq> []" using ne by (simp only: upper_Nil not_False_eq_True)
  moreover have "\<not> isspace (hd (upper (strip p)))"
    using strip_hd [OF ne] by (simp only: upper_hd [OF ne] not_False_eq_True)
  moreover have "\<not> isspace (last (upper (strip p)))"
    using strip_last [OF ne] by (simp only: upper_last [OF ne] not_False_eq_True)
  moreover have "CHR '','' \<notin> set (upper (strip p))"
    by (rule upper_no_comma [OF nc])
  moreover have "upper (upper (strip p)) = upper (strip p)"
    by (rule upper_idem)
  ultimately show ?thesis unfolding t by blast
qed

text \<open>
  C9 (as amended). The parsed tickers are non-empty, carry no white space at either end,
  no comma and no lower-case letter, and come in input order: a piece without a comma gives
  its trimmed upper-cased text or nothing, and the tickers of \<open>a,b\<close> are those of \<open>a\<close>
  followed by those of \<open>b\<close>. Nothing removes a repetition: a symbol typed twice is in the
  list twice.
\<close>

theorem tickers_normalised:
  "(\<forall>t\<in>set (tickers inp).
      t \<noteq> [] \<and> \<not> isspace (hd t) \<and> \<not> isspace (last t) \<and> CHR '','' \<notin> set t \<and> upper t = t) \<and>
   (CHR '','' \<notin> set piece \<longrightarrow>
      tickers piece = (if strip piece = [] then [] else [upper (strip piece)])) \<and>
   tickers (a @ CHR '','' # b) = tickers a @ tickers b"
proof -
  have A: "\<forall>t\<in>set (tickers inp).
      t \<noteq> [] \<and> \<not> isspace (hd t) \<and> \<not> isspace (last t) \<and> CHR '','' \<notin> set t \<and> upper t = t"
  proof (rule ballI)
    fix t assume "t \<in> set (tickers inp)"
    then show "t \<noteq> [] \<and> \<not> isspace (hd t) \<and> \<not> isspace (last t) \<and>
        CHR '','' \<notin> set t \<and> upper t = t"
      by (rule tickers_elem)
  qed
  have B: "CHR '','' \<notin> set piece \<longrightarrow>
      tickers piece = (if strip piece = [] then [] else [upper (strip piece)])"
    by (rule impI) (rule tickers_piece)
  show ?thesis
    by (rule conjI [OF A conjI [OF B tickers_append]])
qed

text \<open>
  C9 as stated asks for a sequence without repetitions; the input \<open>AAPL, aapl\<close> gives
  the ticker AAPL twice.
\<close>

theorem tickers_duplicates: "\<not> distinct (tickers ''AAPL, aapl'')"
  by code_simp


theorem tickers_normalised_witness:
  "''MSFT'' \<in> set (tickers '' aapl, Msft , aapl'') \<and>
   CHR '','' \<notin> set '' Msft '' \<and>
   \<not> isspace (hd ''MSFT'') \<and> \<not> isspace (last ''MSFT'') \<and> upper ''MSFT'' = ''MSFT'' \<and>
   tickers '' Msft '' = [''MSFT''] \<and>
   tickers ('' aapl, Msft '' @ CHR '','' # '' aapl'') = [''AAPL'', ''MSFT'', ''AAPL'']"
proof -
  note T = tickers_normalised
    [of "'' aapl, Msft , aapl''" "'' Msft ''" "'' aapl, Msft ''" "'' aapl''"]
  have m: "''MSFT'' \<in> set (tickers '' aapl, Msft , aapl'')" by code_simp
  have c: "CHR '','' \<notin> set '' Msft ''" by code_simp
  have s: "strip '' Msft '' = ''Msft''" by code_simp
  have u: "upper ''Msft'' = ''MSFT''" by code_simp
  have n: "''Msft'' \<noteq> []" by (rule list.distinct)
  have l: "tickers '' aapl, Msft '' = [''AAPL'', ''MSFT'']" by code_simp
  have r: "tickers '' aapl'' = [''AAPL'']" by code_simp
  have a: "[''AAPL'', ''MSFT''] @ [''AAPL''] = [''AAPL'', ''MSFT'', ''AAPL'']"
    by (simp only: append.simps)
  from T [THEN conjunct1, rule_format, OF m]
  have 1: "\<not> isspace (hd ''MSFT'') \<and> \<not> isspace (last ''MSFT'') \<and> upper ''MSFT'' = ''MSFT''"
    by blast
  from T [THEN conjunct2, THEN conjunct1, rule_format, OF c]
  have 2: "tickers '' Msft '' = [''MSFT'']"
    by (simp only: s u n if_False)
  from T [THEN conjunct2, THEN conjunct2]
  have 3: "tickers ('' aapl, Msft '' @ CHR '','' # '' aapl'') = [''AAPL'', ''MSFT'', ''AAPL'']"
    by (simp only: l r a)
  show ?thesis using m c 1 2 3 by blast
qed

section \<open>The fetch loop, the summary and the charts\<close>

lemma column_mean_eq:
  "column_mean col =
     (if dropna_cells col = [] then NaN
      else Fin (sum_list (dropna_cells col) / of_nat (length (dropna_cells col))))"
proof (cases "dropna_cells col = []")
  case True
  then show ?thesis by (simp add: column_mean_def)
next
  case False
  then have "length (dropna_cells col) \<noteq> 0" by simp
  then have "(of_nat (length (dropna_cells col)) :: rat) \<noteq> 0" by (simp only: of_nat_eq_0_iff not_False_eq_True)
  then show ?thesis using False by (simp add: column_mean_def fsum_Fin Let_def)
qed

lemma dropna_cells_simps:
  "dropna_cells [] = []"
  "dropna_cells (NA # col) = dropna_cells col"
  "dropna_cells (Val x # col) = x # dropna_cells col"
  by (simp_all add: dropna_cells_def)

text \<open>
  C6. Each summary average is the arithmetic mean of its own column over the rows where
  the field is present, with the number of those rows as its denominator, and NaN (shown
  as "N/A") when no row has the field. P/E cells 10, not available, 20 give 15, and
  the three averages of one table can have three different denominators.
\<close>

theorem summary_averages:
  "avg_pe df =
     (let present = dropna_cells (map PE_Ratio df)
      in if present = [] then NaN else Fin (sum_list present / of_nat (length present))) \<and>
   avg_price df =
     (let present = dropna_cells (map Price df)
      in if present = [] then NaN else Fin (sum_list present / of_nat (length present))) \<and>
   avg_mcap df =
     (let present = dropna_cells (map Market_Cap df)
      in if present = [] then NaN else Fin (sum_list present / of_nat (length present))) \<and>
   dropna_cells [Val 10, NA, Val 20 :: rat cell] = [10, 20] \<and>
   column_mean [Val 10, NA, Val 20] = Fin 15 \<and>
   metric_value (column_mean [NA, NA]) = NA"
proof -
  have ex: "column_mean [Val 10, NA, Val 20] = Fin 15"
    by (simp add: column_mean_eq dropna_cells_simps)
  show ?thesis
    unfolding avg_pe_def avg_price_def avg_mcap_def Let_def
    by (simp add: column_mean_eq dropna_cells_simps metric_value_def notna_def)
qed

theorem summary_averages_witness:
  "avg_pe [make_row ''A'' (sample_info (Some 1) (Some 10)),
           make_row ''B'' (sample_info (Some 2) None),
           make_row ''C'' (sample_info (Some 6) (Some 20))] = Fin 15 \<and>
   avg_price [make_row ''A'' (sample_info (Some 1) (Some 10)),
           make_row ''B'' (sample_info (Some 2) None),
           make_row ''C'' (sample_info (Some 6) (Some 20))] = Fin 3 \<and>
   avg_mcap [make_row ''A'' (sample_info (Some 1) (Some 10)),
           make_row ''B'' (sample_info (Some 2) None),
           make_row ''C'' (sample_info (Some 6) (Some 20))] = NaN"
  using summary_averages [of "[make_row ''A'' (sample_info (Some 1) (Some 10)),
           make_row ''B'' (sample_info (Some 2) None),
           make_row ''C'' (sample_info (Some 6) (Some 20))]"]
  by (simp add: make_row_def sample_info_def dict_get_def dropna_cells_simps Let_def)


lemma fetch_fold_data:
  "data (foldl (fetch_one m) st ts) =
   data st @ map (\<lambda>t. make_row t (projr (info_of m t))) (filter (\<lambda>t. \<not> isl (info_of m t)) ts)"
proof (induction ts arbitrary: st)
  case Nil
  then show ?case by simp
next
  case (Cons t ts)
  have "data (fetch_one m st t) =
        data st @ (if isl (info_of m t) then [] else [make_row t (projr (info_of m t))])"
    by (simp add: fetch_one_def Let_def split: sum.splits)
  then show ?case using Cons [of "fetch_one m st t"] by simp
qed

lemma fetch_fold_shown:
  "shown (foldl (fetch_one m) st ts) = shown st @ concat (map (fetch_events m) ts)"
proof (induction ts arbitrary: st)
  case Nil
  then show ?case by simp
next
  case (Cons t ts)
  have "shown (fetch_one m st t) = shown st @ fetch_events m t"
    by (simp add: fetch_one_def fetch_events_def Let_def split: sum.splits)
  then show ?case using Cons [of "fetch_one m st t"] by simp
qed

lemma fetch_all_data:
  "data (fetch_all m ts) =
   map (\<lambda>t. make_row t (projr (info_of m t))) (filter (\<lambda>t. \<not> isl (info_of m t)) ts)"
  by (simp add: fetch_all_def fetch_fold_data)

lemma fetch_all_shown: "shown (fetch_all m ts) = concat (map (fetch_events m) ts)"
  by (simp add: fetch_all_def fetch_fold_shown)








lemma fetch_events_fail:
  "isl (info_of m t) \<Longrightarrow> fetch_events m t = [Error t (projl (info_of m t))]"
  by (cases "info_of m t") (simp_all add: fetch_events_def)

text \<open>
  C10. If the info lookup fails for every requested symbol, the run shows the error of
  each symbol, in input order, and nothing else: no table, no summary, no download
  button, no heatmap and no chart or chart warning.
\<close>

theorem no_rows_no_output:
  assumes "\<forall>t\<in>set ts. isl (info_of m t)"
  shows "generate_watchlist m ts = map (\<lambda>t. Error t (projl (info_of m t))) ts"
proof -
  have "filter (\<lambda>t. \<not> isl (info_of m t)) ts = []"
    using assms by (simp add: filter_empty_conv)
  then have d: "data (fetch_all m ts) = []"
    by (simp add: fetch_all_data)
  have "concat (map (fetch_events m) ts) = map (\<lambda>t. Error t (projl (info_of m t))) ts"
    using assms by (induction ts) (simp_all add: fetch_events_fail)
  then show ?thesis
    using d by (simp add: generate_watchlist_def Let_def fetch_all_shown)
qed

theorem no_rows_no_output_witness:
  "isl (info_of failing_market ''A'') \<and> isl (info_of failing_market ''B'') \<and>
   generate_watchlist failing_market [''A'', ''B''] =
     [Error ''A'' ''no data'', Error ''B'' ''no data'']"
  using no_rows_no_output [of "[''A'', ''B'']" failing_market]
  by (simp add: failing_market_def)








section \<open>Rows of the return matrix\<close>





lemma pct_rows_length: "length (pct_rows rows) = length rows"
  by (cases rows) simp_all

























section \<open>One row and one error per entry\<close>






end
